theory Spec2Isabelle
  imports Main "HOL-Library.Word"
begin

unbundle bit_operations_syntax

section \<open>JavaScript strings\<close>

text \<open>
  Strings are lists of characters. The addresses, hashes and prefixes handled by the
  deployment script are ASCII (hexadecimal digits and the \<open>0x\<close> marker), so
  \<open>toLowerCase\<close> maps the letters \<open>A\<close> to \<open>Z\<close> to \<open>a\<close> to \<open>z\<close> and leaves every
  other character alone. \<open>startsWith\<close> is \<open>String.prototype.startsWith\<close> at position 0.
\<close>

definition toLowerCaseChar :: "char \<Rightarrow> char" where
  "toLowerCaseChar c =
     (let n = (of_char c :: nat) in if 65 \<le> n \<and> n \<le> 90 then char_of (n + 32) else c)"

definition toLowerCase :: "string \<Rightarrow> string" where
  "toLowerCase s = map toLowerCaseChar s"

definition startsWith :: "string \<Rightarrow> string \<Rightarrow> bool" where
  "startsWith s searchString = (take (length searchString) s = searchString)"

section \<open>The imported functions\<close>

text \<open>
  \<open>scripts/deploy-upgradeable.ts\<close> imports \<open>keccak256\<close>, \<open>toHex\<close> and
  \<open>getCreate2Address\<close> from the viem library and calls \<open>Number.prototype.toLocaleString\<close>
  of the runtime. They are parameters of the model, with the types of their TypeScript
  signatures: hex strings are strings, numbers are integers.
  \<open>getCreate2Address\<close> takes its options \<open>from\<close>, \<open>salt\<close> and \<open>bytecodeHash\<close> in this
  order.
\<close>

record viem =
  keccak256 :: "string \<Rightarrow> string"
  toHex :: "int \<Rightarrow> string"
  getCreate2Address :: "string \<Rightarrow> string \<Rightarrow> string \<Rightarrow> string"
  toLocaleString :: "int \<Rightarrow> string"

section \<open>findVanitySalt\<close>

text \<open>
  The value returned on success, \<open>{ salt, address }\<close>; \<open>null\<close> is \<open>None\<close>.
\<close>

record SearchResult =
  salt :: string
  address :: string

text \<open>
  The \<open>for\<close> loop of \<open>findVanitySalt\<close>, from counter \<open>i\<close> on. The console is the list
  of the lines written so far; the loop returns it with the result. The counter and
  \<open>maxIterations\<close> are JavaScript numbers holding integers, modelled as \<open>int\<close> (exact
  below \<open>2 ^ 53\<close>); the counter is never negative, where \<open>%\<close> and \<open>mod\<close> agree.
\<close>

function findVanitySalt_loop ::
  "viem \<Rightarrow> string \<Rightarrow> string \<Rightarrow> string \<Rightarrow> int \<Rightarrow> int \<Rightarrow> string list
    \<Rightarrow> SearchResult option \<times> string list" where
  "findVanitySalt_loop lib deployer initCodeHash prefix maxIterations i console =
     (if i < maxIterations then
        (let salt = keccak256 lib (toHex lib i);
             address = getCreate2Address lib deployer salt initCodeHash
         in if startsWith (toLowerCase address) (''0x'' @ prefix)
            then (Some \<lparr>salt = salt, address = address\<rparr>, console)
            else findVanitySalt_loop lib deployer initCodeHash prefix maxIterations (i + 1)
                   (if i mod 100000 = 0 \<and> i > 0
                    then console @ [''   Checked '' @ toLocaleString lib i @ '' salts...'']
                    else console))
      else (None, console))"
  by pat_completeness auto
termination
  by (relation "measure (\<lambda>(lib, deployer, initCodeHash, prefix, maxIterations, i, console).
        nat (maxIterations - i))") auto

text \<open>
  \<open>findVanitySalt\<close> itself: the optional parameter \<open>maxIterations\<close> is \<open>None\<close> when the
  caller omits it and then takes the default \<open>100000000\<close>; the prefix is lowercased once,
  before the loop, which starts at counter 0.
\<close>

definition findVanitySalt ::
  "viem \<Rightarrow> string \<Rightarrow> string \<Rightarrow> string \<Rightarrow> int option \<Rightarrow> string list
    \<Rightarrow> SearchResult option \<times> string list" where
  "findVanitySalt lib deployer initCodeHash desiredPrefix maxIterations console =
     (let maxIterations = (case maxIterations of None \<Rightarrow> 100000000 | Some m \<Rightarrow> m);
          prefix = toLowerCase desiredPrefix
      in findVanitySalt_loop lib deployer initCodeHash prefix maxIterations 0 console)"

text \<open>
  The candidate of counter \<open>i\<close>, as the loop body computes it, and the test the loop
  applies to it.
\<close>

definition saltAt :: "viem \<Rightarrow> int \<Rightarrow> string" where
  "saltAt lib i = keccak256 lib (toHex lib i)"

definition addressAt :: "viem \<Rightarrow> string \<Rightarrow> string \<Rightarrow> int \<Rightarrow> string" where
  "addressAt lib deployer initCodeHash i =
     getCreate2Address lib deployer (saltAt lib i) initCodeHash"

definition matchesAt :: "viem \<Rightarrow> string \<Rightarrow> string \<Rightarrow> string \<Rightarrow> int \<Rightarrow> bool" where
  "matchesAt lib deployer initCodeHash prefix i =
     startsWith (toLowerCase (addressAt lib deployer initCodeHash i)) (''0x'' @ prefix)"

text \<open>
  The same search with the progress report taken out of the loop body: nothing is
  written, so no console is passed. It is the version compared with \<open>findVanitySalt\<close>
  to see that reporting does not change the outcome.
\<close>

function findVanitySalt_noReport_loop ::
  "viem \<Rightarrow> string \<Rightarrow> string \<Rightarrow> string \<Rightarrow> int \<Rightarrow> int \<Rightarrow> SearchResult option" where
  "findVanitySalt_noReport_loop lib deployer initCodeHash prefix maxIterations i =
     (if i < maxIterations then
        (let salt = keccak256 lib (toHex lib i);
             address = getCreate2Address lib deployer salt initCodeHash
         in if startsWith (toLowerCase address) (''0x'' @ prefix)
            then Some \<lparr>salt = salt, address = address\<rparr>
            else findVanitySalt_noReport_loop lib deployer initCodeHash prefix maxIterations (i + 1))
      else None)"
  by pat_completeness auto
termination
  by (relation "measure (\<lambda>(lib, deployer, initCodeHash, prefix, maxIterations, i).
        nat (maxIterations - i))") auto

definition findVanitySalt_noReport ::
  "viem \<Rightarrow> string \<Rightarrow> string \<Rightarrow> string \<Rightarrow> int option \<Rightarrow> SearchResult option" where
  "findVanitySalt_noReport lib deployer initCodeHash desiredPrefix maxIterations =
     (let maxIterations = (case maxIterations of None \<Rightarrow> 100000000 | Some m \<Rightarrow> m);
          prefix = toLowerCase desiredPrefix
      in findVanitySalt_noReport_loop lib deployer initCodeHash prefix maxIterations 0)"

section \<open>Salt generation\<close>

type_synonym byte = "8 word"

text \<open>
  Modelled from the spec: the imported viem functions \<open>toHex\<close> and \<open>keccak256\<close> are not
  part of the repository's sources. The salt of counter \<open>i\<close> is \<open>keccak256(toHex(i))\<close>:
  \<open>toHex\<close> renders a number as the \<open>0x\<close> marker followed by its hexadecimal digits
  without padding (\<open>Number.prototype.toString(16)\<close>), and \<open>keccak256\<close>, given a hex
  string, hashes the bytes the string denotes: the marker is dropped, an odd number of
  digits is padded with one leading \<open>0\<close>, and each pair of digits is one byte. A
  character that is no hexadecimal digit makes the conversion fail. The hash primitive
  on bytes is the parameter \<open>hash\<close>, returning the digest as a hex string.
\<close>

definition hexChar :: "nat \<Rightarrow> char" where
  "hexChar d = ''0123456789abcdef'' ! d"

fun hexDigits :: "nat \<Rightarrow> string" where
  "hexDigits n = (if n < 16 then [hexChar n] else hexDigits (n div 16) @ [hexChar (n mod 16)])"

definition toHex_viem :: "int \<Rightarrow> string" where
  "toHex_viem i = ''0x'' @ hexDigits (nat i)"

definition charCodeToBase16 :: "char \<Rightarrow> nat option" where
  "charCodeToBase16 c =
     (let n = (of_char c :: nat) in
      if 48 \<le> n \<and> n \<le> 57 then Some (n - 48)
      else if 65 \<le> n \<and> n \<le> 70 then Some (n - 55)
      else if 97 \<le> n \<and> n \<le> 102 then Some (n - 87)
      else None)"

fun hexPairs :: "string \<Rightarrow> byte list option" where
  "hexPairs [] = Some []"
| "hexPairs [c] = None"
| "hexPairs (l # r # rest) =
     (case (charCodeToBase16 l, charCodeToBase16 r) of
        (Some nibbleLeft, Some nibbleRight) \<Rightarrow>
          map_option ((#) (of_nat (nibbleLeft * 16 + nibbleRight))) (hexPairs rest)
      | _ \<Rightarrow> None)"

definition padEven :: "string \<Rightarrow> string" where
  "padEven hexString = (if odd (length hexString) then CHR ''0'' # hexString else hexString)"

definition hexToBytes :: "string \<Rightarrow> byte list option" where
  "hexToBytes hex = (let hexString = padEven (drop 2 hex) in hexPairs hexString)"

definition keccak256_viem :: "(byte list \<Rightarrow> string) \<Rightarrow> string \<Rightarrow> string option" where
  "keccak256_viem hash v = map_option hash (hexToBytes v)"

text \<open>
  The encoding named by the specification: the big-endian bytes of \<open>i\<close>, with no leading
  zero byte; zero is the single byte 0.
\<close>

fun bigEndianBytes :: "nat \<Rightarrow> byte list" where
  "bigEndianBytes n =
     (if n < 256 then [of_nat n] else bigEndianBytes (n div 256) @ [of_nat (n mod 256)])"

section \<open>Create2Factory.computeAddress\<close>

text \<open>
  Solidity's \<open>bytes32\<close> and \<open>uint256\<close> are 256-bit words, \<open>address\<close> and \<open>uint160\<close> are
  160-bit words, \<open>bytes1\<close> is a byte. \<open>abi.encodePacked\<close> of these static types is the
  concatenation of their big-endian bytes, without padding. The precompiled \<open>keccak256\<close>
  is a parameter. The conversion \<open>uint256(bytes32)\<close> keeps the bits,
  \<open>uint160(uint256)\<close> cuts the higher-order bits off, \<open>address(uint160)\<close> keeps the bits.
  \<open>address(this)\<close> is the parameter \<open>this\<close>.
\<close>

type_synonym bytes32 = "256 word"
type_synonym sol_address = "160 word"

definition wordBytes :: "nat \<Rightarrow> 'a::len word \<Rightarrow> byte list" where
  "wordBytes n w = map (\<lambda>k. ucast (drop_bit (8 * k) w)) (rev [0..<n])"

definition encodePacked :: "byte \<Rightarrow> sol_address \<Rightarrow> bytes32 \<Rightarrow> bytes32 \<Rightarrow> byte list" where
  "encodePacked b a x y = [b] @ wordBytes 20 a @ wordBytes 32 x @ wordBytes 32 y"

definition computeAddress ::
  "(byte list \<Rightarrow> bytes32) \<Rightarrow> sol_address \<Rightarrow> bytes32 \<Rightarrow> bytes32 \<Rightarrow> sol_address" where
  "computeAddress keccak this =
     (\<lambda>salt bytecodeHash. ucast (keccak (encodePacked 0xff this salt bytecodeHash)))"

section \<open>An instance of the imported functions\<close>

text \<open>
  A small instance on which the theorems below are exercised: the hash is the
  identity, the derived address is the deployer followed by the digits of the salt and
  by the init-code hash, and the number is rendered by \<open>toHex_viem\<close>.
\<close>

definition exampleViem :: viem where
  "exampleViem =
     \<lparr>keccak256 = (\<lambda>v. v),
      toHex = toHex_viem,
      getCreate2Address = (\<lambda>sender salt bytecodeHash. sender @ drop 2 salt @ bytecodeHash),
      toLocaleString = (\<lambda>i. drop 2 (toHex_viem i))\<rparr>"

section \<open>Properties of the loop\<close>

lemmas loop_simps = findVanitySalt_loop.simps
declare findVanitySalt_loop.simps [simp del]
declare findVanitySalt_noReport_loop.simps [simp del]

lemma loop_exhausted:
  "maxIterations \<le> i \<Longrightarrow>
   findVanitySalt_loop lib deployer initCodeHash prefix maxIterations i console = (None, console)"
  by (subst loop_simps) simp

lemma loop_hit:
  "i < maxIterations \<Longrightarrow> matchesAt lib deployer initCodeHash prefix i \<Longrightarrow>
   findVanitySalt_loop lib deployer initCodeHash prefix maxIterations i console =
     (Some \<lparr>salt = saltAt lib i, address = addressAt lib deployer initCodeHash i\<rparr>, console)"
  by (subst loop_simps) (simp add: matchesAt_def addressAt_def saltAt_def Let_def)

lemma loop_miss:
  "i < maxIterations \<Longrightarrow> \<not> matchesAt lib deployer initCodeHash prefix i \<Longrightarrow>
   findVanitySalt_loop lib deployer initCodeHash prefix maxIterations i console =
     findVanitySalt_loop lib deployer initCodeHash prefix maxIterations (i + 1)
       (if i mod 100000 = 0 \<and> i > 0
        then console @ [''   Checked '' @ toLocaleString lib i @ '' salts...'']
        else console)"
  by (subst loop_simps) (simp add: matchesAt_def addressAt_def saltAt_def Let_def)

lemma loop_found:
  "fst (findVanitySalt_loop lib deployer initCodeHash prefix maxIterations i console) = Some r \<Longrightarrow>
   \<exists>k. i \<le> k \<and> k < maxIterations \<and> matchesAt lib deployer initCodeHash prefix k \<and>
       (\<forall>j. i \<le> j \<and> j < k \<longrightarrow> \<not> matchesAt lib deployer initCodeHash prefix j) \<and>
       r = \<lparr>salt = saltAt lib k, address = addressAt lib deployer initCodeHash k\<rparr>"
proof (induction lib deployer initCodeHash prefix maxIterations i console
       rule: findVanitySalt_loop.induct)
  case (1 lib deployer initCodeHash prefix maxIterations i console)
  show ?case
  proof (cases "i < maxIterations")
    case False
    with "1.prems" show ?thesis by (simp add: loop_exhausted)
  next
    case inside: True
    show ?thesis
    proof (cases "matchesAt lib deployer initCodeHash prefix i")
      case True
      with inside "1.prems"
      have "r = \<lparr>salt = saltAt lib i, address = addressAt lib deployer initCodeHash i\<rparr>"
        by (simp add: loop_hit)
      with inside True show ?thesis
        by (intro exI [of _ i]) auto
    next
      case False
      let ?console = "if i mod 100000 = 0 \<and> i > 0
        then console @ [''   Checked '' @ toLocaleString lib i @ '' salts...'']
        else console"
      from inside False "1.prems"
      have "fst (findVanitySalt_loop lib deployer initCodeHash prefix maxIterations (i + 1)
              ?console) = Some r"
        by (simp add: loop_miss)
      moreover from False
      have "\<not> startsWith
              (toLowerCase (getCreate2Address lib deployer (keccak256 lib (toHex lib i)) initCodeHash))
              (''0x'' @ prefix)"
        by (simp add: matchesAt_def addressAt_def saltAt_def)
      ultimately obtain k where k: "i + 1 \<le> k" "k < maxIterations"
          "matchesAt lib deployer initCodeHash prefix k"
          "\<forall>j. i + 1 \<le> j \<and> j < k \<longrightarrow> \<not> matchesAt lib deployer initCodeHash prefix j"
          "r = \<lparr>salt = saltAt lib k, address = addressAt lib deployer initCodeHash k\<rparr>"
        using "1.IH" [OF inside refl refl] by blast
      have "\<forall>j. i \<le> j \<and> j < k \<longrightarrow> \<not> matchesAt lib deployer initCodeHash prefix j"
      proof (intro allI impI)
        fix j assume "i \<le> j \<and> j < k"
        then have "j = i \<or> (i + 1 \<le> j \<and> j < k)" by arith
        with False k(4) show "\<not> matchesAt lib deployer initCodeHash prefix j" by blast
      qed
      with k show ?thesis
        by (intro exI [of _ k]) simp
    qed
  qed
qed

lemma loop_none:
  "(\<forall>j. i \<le> j \<and> j < maxIterations \<longrightarrow> \<not> matchesAt lib deployer initCodeHash prefix j) \<Longrightarrow>
   fst (findVanitySalt_loop lib deployer initCodeHash prefix maxIterations i console) = None"
proof (induction "nat (maxIterations - i)" arbitrary: i console)
  case 0
  then have "maxIterations \<le> i" by simp
  then show ?case by (simp add: loop_exhausted)
next
  case (Suc n)
  then have inside: "i < maxIterations" and n: "n = nat (maxIterations - (i + 1))"
    by linarith+
  from Suc.prems inside have miss: "\<not> matchesAt lib deployer initCodeHash prefix i"
    by simp
  from Suc.prems
  have "\<forall>j. i + 1 \<le> j \<and> j < maxIterations \<longrightarrow> \<not> matchesAt lib deployer initCodeHash prefix j"
    by simp
  with Suc.hyps(1) [OF n] show ?case
    by (simp only: loop_miss [OF inside miss])
qed

lemma loop_first:
  "i \<le> k \<Longrightarrow> k < maxIterations \<Longrightarrow> matchesAt lib deployer initCodeHash prefix k \<Longrightarrow>
   (\<forall>j. i \<le> j \<and> j < k \<longrightarrow> \<not> matchesAt lib deployer initCodeHash prefix j) \<Longrightarrow>
   findVanitySalt_loop lib deployer initCodeHash prefix maxIterations i console =
     findVanitySalt_loop lib deployer initCodeHash prefix (k + 1) i console"
proof (induction "nat (k - i)" arbitrary: i console)
  case 0
  then have "i = k" by simp
  with "0.prems" show ?case by (simp add: loop_hit)
next
  case (Suc n)
  then have below: "i < k" and n: "n = nat (k - (i + 1))"
    by linarith+
  from below Suc.prems have inside: "i < maxIterations" and inside': "i < k + 1"
    by linarith+
  from Suc.prems below have miss: "\<not> matchesAt lib deployer initCodeHash prefix i"
    by simp
  from Suc.prems
  have later: "\<forall>j. i + 1 \<le> j \<and> j < k \<longrightarrow> \<not> matchesAt lib deployer initCodeHash prefix j"
    by simp
  from below have "i + 1 \<le> k" by simp
  from Suc.hyps(1) [OF n this Suc.prems(2,3) later] show ?case
    by (simp only: loop_miss [OF inside miss] loop_miss [OF inside' miss])
qed

lemma loop_console:
  "\<exists>out. \<forall>console.
     findVanitySalt_loop lib deployer initCodeHash prefix maxIterations i console =
       (fst (findVanitySalt_loop lib deployer initCodeHash prefix maxIterations i []),
        console @ out)"
proof (induction "nat (maxIterations - i)" arbitrary: i)
  case 0
  then have "maxIterations \<le> i" by simp
  then show ?case by (simp add: loop_exhausted)
next
  case (Suc n)
  then have inside: "i < maxIterations" and n: "n = nat (maxIterations - (i + 1))"
    by linarith+
  show ?case
  proof (cases "matchesAt lib deployer initCodeHash prefix i")
    case True
    with inside show ?thesis by (simp add: loop_hit)
  next
    case False
    from Suc.hyps(1) [OF n] obtain out where out: "\<And>console.
      findVanitySalt_loop lib deployer initCodeHash prefix maxIterations (i + 1) console =
        (fst (findVanitySalt_loop lib deployer initCodeHash prefix maxIterations (i + 1) []),
         console @ out)"
      by blast
    let ?line = "''   Checked '' @ toLocaleString lib i @ '' salts...''"
    let ?out = "(if i mod 100000 = 0 \<and> i > 0 then [?line] else []) @ out"
    have "findVanitySalt_loop lib deployer initCodeHash prefix maxIterations i console =
       (fst (findVanitySalt_loop lib deployer initCodeHash prefix maxIterations i []),
        console @ ?out)" for console
      using out [of "console @ [?line]"] out [of console] out [of "[?line]"] out [of "[]"]
      by (simp add: loop_miss [OF inside False])
    then show ?thesis by blast
  qed
qed

lemma loop_library:
  "(\<forall>j. i \<le> j \<and> j < maxIterations \<longrightarrow> f j = toHex lib j) \<Longrightarrow>
   findVanitySalt_loop (lib\<lparr>toHex := f\<rparr>) deployer initCodeHash prefix maxIterations i console =
     findVanitySalt_loop lib deployer initCodeHash prefix maxIterations i console"
proof (induction "nat (maxIterations - i)" arbitrary: i console)
  case 0
  then have "maxIterations \<le> i" by simp
  then show ?case by (simp add: loop_exhausted)
next
  case (Suc n)
  then have inside: "i < maxIterations" and n: "n = nat (maxIterations - (i + 1))"
    by linarith+
  from Suc.prems inside have here: "f i = toHex lib i" by simp
  from Suc.prems have later: "\<forall>j. i + 1 \<le> j \<and> j < maxIterations \<longrightarrow> f j = toHex lib j"
    by simp
  show ?case
    by (subst (1 2) loop_simps) (simp add: inside here Let_def Suc.hyps(1) [OF n later])
qed

section \<open>Properties of the string functions\<close>

lemma toLowerCaseChar_idem: "toLowerCaseChar (toLowerCaseChar c) = toLowerCaseChar c"
  by (simp add: toLowerCaseChar_def Let_def)

lemma toLowerCase_idem: "toLowerCase (toLowerCase s) = toLowerCase s"
  by (simp add: toLowerCase_def toLowerCaseChar_idem)

lemma startsWith_append: "startsWith s t \<longleftrightarrow> (\<exists>rest. s = t @ rest)"
  unfolding startsWith_def
  by (metis append_eq_conv_conj append_take_drop_id)

section \<open>Properties of findVanitySalt\<close>

lemma noReport_loop:
  "findVanitySalt_noReport_loop lib deployer initCodeHash prefix maxIterations i =
   fst (findVanitySalt_loop lib deployer initCodeHash prefix maxIterations i console)"
proof (induction "nat (maxIterations - i)" arbitrary: i console)
  case 0
  then have "maxIterations \<le> i" by simp
  then show ?case by (subst findVanitySalt_noReport_loop.simps) (simp add: loop_exhausted)
next
  case (Suc n)
  then have inside: "i < maxIterations" and n: "n = nat (maxIterations - (i + 1))"
    by linarith+
  show ?case
    by (subst findVanitySalt_noReport_loop.simps, subst loop_simps)
       (simp add: inside Let_def Suc.hyps(1) [OF n])
qed

lemma findVanitySalt_unfold:
  "findVanitySalt lib deployer initCodeHash desiredPrefix (Some maxIterations) console =
   findVanitySalt_loop lib deployer initCodeHash (toLowerCase desiredPrefix) maxIterations 0 console"
  by (simp add: findVanitySalt_def)

lemma findVanitySalt_bound:
  "\<exists>m. \<forall>console.
     findVanitySalt lib deployer initCodeHash desiredPrefix maxIterations console =
     findVanitySalt_loop lib deployer initCodeHash (toLowerCase desiredPrefix) m 0 console"
  by (cases maxIterations) (auto simp: findVanitySalt_def)

lemma findVanitySalt_default:
  "findVanitySalt lib deployer initCodeHash desiredPrefix None console =
   findVanitySalt lib deployer initCodeHash desiredPrefix (Some 100000000) console"
  by (simp add: findVanitySalt_def)

lemma matchesAt_library:
  "f j = toHex lib j \<Longrightarrow>
   matchesAt (lib\<lparr>toHex := f\<rparr>) deployer initCodeHash prefix j =
   matchesAt lib deployer initCodeHash prefix j"
  by (simp add: matchesAt_def addressAt_def saltAt_def)

lemma loop_first_outcome:
  "i \<le> k \<Longrightarrow> k < maxIterations \<Longrightarrow> matchesAt lib deployer initCodeHash prefix k \<Longrightarrow>
   (\<forall>j. i \<le> j \<and> j < k \<longrightarrow> \<not> matchesAt lib deployer initCodeHash prefix j) \<Longrightarrow>
   findVanitySalt_loop lib deployer initCodeHash prefix maxIterations i console =
     (Some \<lparr>salt = saltAt lib k, address = addressAt lib deployer initCodeHash k\<rparr>,
      console @ map (\<lambda>j. ''   Checked '' @ toLocaleString lib j @ '' salts...'')
                  (filter (\<lambda>j. j mod 100000 = 0 \<and> j > 0) [i..k - 1]))"
proof (induction "nat (k - i)" arbitrary: i console)
  case 0
  then have "i = k" by simp
  with "0.prems" show ?case by (simp add: loop_hit)
next
  case (Suc n)
  then have below: "i < k" and n: "n = nat (k - (i + 1))"
    by linarith+
  from below Suc.prems have inside: "i < maxIterations"
    by linarith
  from Suc.prems below have miss: "\<not> matchesAt lib deployer initCodeHash prefix i"
    by simp
  from Suc.prems
  have later: "\<forall>j. i + 1 \<le> j \<and> j < k \<longrightarrow> \<not> matchesAt lib deployer initCodeHash prefix j"
    by simp
  from below have next_le: "i + 1 \<le> k" by simp
  from below have range: "[i..k - 1] = i # [i + 1..k - 1]"
    by (simp add: upto_rec1)
  show ?case
    by (simp only: loop_miss [OF inside miss] Suc.hyps(1) [OF n next_le Suc.prems(2,3) later] range)
       simp
qed

lemma findVanitySalt_console:
  "\<exists>result out. \<forall>console.
     findVanitySalt lib deployer initCodeHash desiredPrefix maxIterations console =
       (result, console @ out)"
proof -
  define m where "m = (case maxIterations of None \<Rightarrow> 100000000 | Some m \<Rightarrow> m)"
  have "findVanitySalt lib deployer initCodeHash desiredPrefix maxIterations console =
      findVanitySalt_loop lib deployer initCodeHash (toLowerCase desiredPrefix) m 0 console"
    for console
    by (simp add: findVanitySalt_def m_def)
  with loop_console [of lib deployer initCodeHash "toLowerCase desiredPrefix" m 0]
  show ?thesis by auto
qed

section \<open>Properties of the salt encoding\<close>

lemma charCodeToBase16_hexChar: "d < 16 \<Longrightarrow> charCodeToBase16 (hexChar d) = Some d"
proof -
  assume "d < 16"
  then have "d = 0 \<or> d = 1 \<or> d = 2 \<or> d = 3 \<or> d = 4 \<or> d = 5 \<or> d = 6 \<or> d = 7 \<or>
      d = 8 \<or> d = 9 \<or> d = 10 \<or> d = 11 \<or> d = 12 \<or> d = 13 \<or> d = 14 \<or> d = 15"
    by arith
  then show ?thesis
    by (elim disjE) (simp_all add: hexChar_def charCodeToBase16_def)
qed

declare hexDigits.simps [simp del] bigEndianBytes.simps [simp del]

lemma hexDigits_two:
  assumes "16 \<le> n"
  shows "hexDigits n = hexDigits (n div 16) @ [hexChar (n mod 16)]"
  using assms by (subst hexDigits.simps) simp

lemma hexDigits_byte:
  assumes "256 \<le> n"
  shows "hexDigits n = hexDigits (n div 256) @ [hexChar (n div 16 mod 16), hexChar (n mod 16)]"
proof -
  from assms have "16 \<le> n" "16 \<le> n div 16" by auto
  then have "hexDigits n = (hexDigits (n div 16 div 16) @ [hexChar (n div 16 mod 16)]) @ [hexChar (n mod 16)]"
    by (simp add: hexDigits_two [of n] hexDigits_two [of "n div 16"])
  moreover have "n div 16 div 16 = n div 256" by (simp add: div_mult2_eq)
  ultimately show ?thesis by simp
qed

lemma hexPairs_snoc:
  "even (length ds) \<Longrightarrow> charCodeToBase16 l = Some x \<Longrightarrow> charCodeToBase16 r = Some y \<Longrightarrow>
   hexPairs (ds @ [l, r]) = map_option (\<lambda>bs. bs @ [of_nat (x * 16 + y)]) (hexPairs ds)"
proof (induction ds rule: hexPairs.induct)
  case 1
  then show ?case by simp
next
  case (2 c)
  then show ?case by simp
next
  case (3 a b rest)
  then show ?case
    by (simp add: option.map_comp comp_def split: option.splits)
qed

lemma padEven_even: "even (length (padEven ds))"
  by (simp add: padEven_def)

lemma padEven_snoc: "padEven (ds @ [l, r]) = padEven ds @ [l, r]"
  by (simp add: padEven_def)

lemma byte_of_nibbles: "(n div 16 mod 16) * 16 + n mod 16 = n mod 256" for n :: nat
proof -
  have "n mod (16 * 16) = 16 * (n div 16 mod 16) + n mod 16"
    by (rule mod_mult2_eq)
  then show ?thesis by simp
qed

lemma charCodeToBase16_zero: "charCodeToBase16 CHR ''0'' = Some 0"
  by (simp add: charCodeToBase16_def)

lemma hexPairs_one:
  "charCodeToBase16 l = Some x \<Longrightarrow> charCodeToBase16 r = Some y \<Longrightarrow>
   hexPairs [l, r] = Some [of_nat (x * 16 + y)]"
  by simp

lemma hexPairs_hexDigits: "hexPairs (padEven (hexDigits n)) = Some (bigEndianBytes n)"
proof (induction n rule: bigEndianBytes.induct)
  case (1 n)
  show ?case
  proof (cases "n < 256")
    case small: True
    then have bytes: "bigEndianBytes n = [of_nat n]"
      by (subst bigEndianBytes.simps) simp
    show ?thesis
    proof (cases "n < 16")
      case True
      then have "padEven (hexDigits n) = [CHR ''0'', hexChar n]"
        by (subst hexDigits.simps) (simp add: padEven_def)
      with hexPairs_one [OF charCodeToBase16_zero charCodeToBase16_hexChar [OF True]] bytes
      show ?thesis by simp
    next
      case False
      with small have d: "n div 16 < 16" "n mod 16 < 16" and n: "16 \<le> n" by auto
      have "hexDigits (n div 16) = [hexChar (n div 16)]"
        using d(1) by (subst hexDigits.simps) simp
      with n have "padEven (hexDigits n) = [hexChar (n div 16), hexChar (n mod 16)]"
        by (simp add: hexDigits_two padEven_def)
      moreover have "n div 16 * 16 + n mod 16 = n" by simp
      ultimately show ?thesis
        using hexPairs_one [OF charCodeToBase16_hexChar [OF d(1)] charCodeToBase16_hexChar [OF d(2)]]
          bytes
        by simp
    qed
  next
    case False
    then have big: "256 \<le> n" by simp
    then have bytes: "bigEndianBytes n = bigEndianBytes (n div 256) @ [of_nat (n mod 256)]"
      by (subst bigEndianBytes.simps) simp
    have d: "n div 16 mod 16 < 16" "n mod 16 < 16" by auto
    from False "1.IH"
    have IH: "hexPairs (padEven (hexDigits (n div 256))) = Some (bigEndianBytes (n div 256))"
      by simp
    have "padEven (hexDigits n) =
        padEven (hexDigits (n div 256)) @ [hexChar (n div 16 mod 16), hexChar (n mod 16)]"
      by (simp only: hexDigits_byte [OF big] padEven_snoc)
    then have "hexPairs (padEven (hexDigits n)) =
        Some (bigEndianBytes (n div 256) @ [of_nat (n div 16 mod 16 * 16 + n mod 16)])"
      using hexPairs_snoc [OF padEven_even charCodeToBase16_hexChar [OF d(1)]
          charCodeToBase16_hexChar [OF d(2)], of "hexDigits (n div 256)"] IH
      by simp
    with bytes show ?thesis
      by (simp only: byte_of_nibbles)
  qed
qed

section \<open>Properties of the byte encoding of words\<close>

lemma length_wordBytes: "length (wordBytes n w) = n"
  by (simp add: wordBytes_def)

lemma byte_of_truncated:
  fixes w :: "256 word"
  assumes "k < 20"
  shows "(ucast (drop_bit (8 * k) (ucast w :: 160 word)) :: byte) = ucast (drop_bit (8 * k) w)"
proof (rule bit_word_eqI)
  fix n
  assume "n < LENGTH(8)"
  with assms have "8 * k + n < 160" by simp
  then show "bit (ucast (drop_bit (8 * k) (ucast w :: 160 word)) :: byte) n =
             bit (ucast (drop_bit (8 * k) w) :: byte) n"
    by (simp add: bit_simps)
qed

lemma wordBytes_truncated:
  fixes w :: "256 word"
  shows "wordBytes 20 (ucast w :: 160 word) = drop 12 (wordBytes 32 w)"
proof -
  have "drop 12 (rev [0..<32]) = rev [0..<20]"
    by (simp add: drop_rev)
  then have "drop 12 (wordBytes 32 w) = map (\<lambda>k. ucast (drop_bit (8 * k) w)) (rev [0..<20])"
    by (simp add: wordBytes_def drop_map)
  also have "\<dots> = wordBytes 20 (ucast w :: 160 word)"
    unfolding wordBytes_def by (rule map_cong) (simp_all add: byte_of_truncated)
  finally show ?thesis by simp
qed

section \<open>Claims about the search\<close>

text \<open>
  C1 (prefix correctness). Whenever \<open>findVanitySalt\<close> returns a result, the lowercased
  address of the result is the \<open>0x\<close> marker followed by digits that start with the
  lowercased desired prefix.
\<close>

theorem findVanitySalt_prefix:
  assumes "fst (findVanitySalt lib deployer initCodeHash desiredPrefix maxIterations console)
             = Some r"
  shows "\<exists>digits. toLowerCase (address r) = ''0x'' @ digits \<and>
                  startsWith digits (toLowerCase desiredPrefix)"
proof -
  from findVanitySalt_bound obtain m where
    "findVanitySalt lib deployer initCodeHash desiredPrefix maxIterations console =
     findVanitySalt_loop lib deployer initCodeHash (toLowerCase desiredPrefix) m 0 console"
    by blast
  with assms obtain k where
    "matchesAt lib deployer initCodeHash (toLowerCase desiredPrefix) k"
    "r = \<lparr>salt = saltAt lib k, address = addressAt lib deployer initCodeHash k\<rparr>"
    by (auto dest: loop_found)
  then have "startsWith (toLowerCase (address r)) (''0x'' @ toLowerCase desiredPrefix)"
    by (simp add: matchesAt_def)
  then obtain rest where "toLowerCase (address r) = ''0x'' @ toLowerCase desiredPrefix @ rest"
    by (auto simp: startsWith_append)
  then show ?thesis
    by (intro exI [of _ "toLowerCase desiredPrefix @ rest"]) (simp add: startsWith_def)
qed

theorem findVanitySalt_prefix_witness:
  "fst (findVanitySalt exampleViem ''0xAB'' ''00'' ''aBa'' (Some 16) []) =
     Some \<lparr>salt = ''0xa'', address = ''0xABa00''\<rparr> \<and>
   (\<exists>digits. toLowerCase ''0xABa00'' = ''0x'' @ digits \<and> startsWith digits (toLowerCase ''aBa''))"
proof -
  have found: "fst (findVanitySalt exampleViem ''0xAB'' ''00'' ''aBa'' (Some 16) []) =
     Some \<lparr>salt = ''0xa'', address = ''0xABa00''\<rparr>"
    by code_simp
  from findVanitySalt_prefix [OF found] found show ?thesis by simp
qed

text \<open>
  C2 (minimality and short circuit). When \<open>findVanitySalt\<close> returns a result, it is the
  candidate of the smallest counter \<open>i\<close> below \<open>maxIterations\<close> whose address matches,
  and the search stops there: the outcome, result and console, is that of the search
  bounded at \<open>i + 1\<close>, the lines written are exactly the progress lines of the counters
  before \<open>i\<close>, and the outcome stays the same when \<open>toHex\<close> is replaced by any function
  that agrees with it on the counters up to \<open>i\<close>.
\<close>

theorem findVanitySalt_first_match:
  assumes "fst (findVanitySalt lib deployer initCodeHash desiredPrefix (Some maxIterations) console)
             = Some r"
  shows "\<exists>i. 0 \<le> i \<and> i < maxIterations \<and>
     matchesAt lib deployer initCodeHash (toLowerCase desiredPrefix) i \<and>
     (\<forall>j. 0 \<le> j \<and> j < i \<longrightarrow>
        \<not> matchesAt lib deployer initCodeHash (toLowerCase desiredPrefix) j) \<and>
     r = \<lparr>salt = saltAt lib i, address = addressAt lib deployer initCodeHash i\<rparr> \<and>
     findVanitySalt lib deployer initCodeHash desiredPrefix (Some maxIterations) console =
       findVanitySalt lib deployer initCodeHash desiredPrefix (Some (i + 1)) console \<and>
     snd (findVanitySalt lib deployer initCodeHash desiredPrefix (Some maxIterations) console) =
       console @ map (\<lambda>j. ''   Checked '' @ toLocaleString lib j @ '' salts...'')
                   (filter (\<lambda>j. j mod 100000 = 0 \<and> j > 0) [0..i - 1]) \<and>
     (\<forall>f. (\<forall>j. 0 \<le> j \<and> j \<le> i \<longrightarrow> f j = toHex lib j) \<longrightarrow>
        findVanitySalt (lib\<lparr>toHex := f\<rparr>) deployer initCodeHash desiredPrefix
          (Some maxIterations) console =
        findVanitySalt lib deployer initCodeHash desiredPrefix (Some maxIterations) console)"
proof -
  let ?p = "toLowerCase desiredPrefix"
  from assms obtain k where k: "0 \<le> k" "k < maxIterations"
      "matchesAt lib deployer initCodeHash ?p k"
      "\<forall>j. 0 \<le> j \<and> j < k \<longrightarrow> \<not> matchesAt lib deployer initCodeHash ?p j"
      "r = \<lparr>salt = saltAt lib k, address = addressAt lib deployer initCodeHash k\<rparr>"
    unfolding findVanitySalt_unfold by (blast dest: loop_found)
  have bounded: "findVanitySalt lib deployer initCodeHash desiredPrefix (Some maxIterations) console =
       findVanitySalt lib deployer initCodeHash desiredPrefix (Some (k + 1)) console"
    unfolding findVanitySalt_unfold using k(1-4) by (rule loop_first)
  have written: "snd (findVanitySalt lib deployer initCodeHash desiredPrefix (Some maxIterations)
         console) =
       console @ map (\<lambda>j. ''   Checked '' @ toLocaleString lib j @ '' salts...'')
                   (filter (\<lambda>j. j mod 100000 = 0 \<and> j > 0) [0..k - 1])"
    unfolding findVanitySalt_unfold by (simp only: loop_first_outcome [OF k(1-4)] snd_conv)
  have later: "findVanitySalt (lib\<lparr>toHex := f\<rparr>) deployer initCodeHash desiredPrefix
          (Some maxIterations) console =
        findVanitySalt lib deployer initCodeHash desiredPrefix (Some maxIterations) console"
    if agree: "\<forall>j. 0 \<le> j \<and> j \<le> k \<longrightarrow> f j = toHex lib j" for f
  proof -
    let ?lib = "lib\<lparr>toHex := f\<rparr>"
    from agree k(1) have "matchesAt ?lib deployer initCodeHash ?p k"
      using k(3) by (simp add: matchesAt_library)
    moreover from agree k(4)
    have "\<forall>j. 0 \<le> j \<and> j < k \<longrightarrow> \<not> matchesAt ?lib deployer initCodeHash ?p j"
      by (simp add: matchesAt_library)
    ultimately
    have "findVanitySalt_loop ?lib deployer initCodeHash ?p maxIterations 0 console =
          findVanitySalt_loop ?lib deployer initCodeHash ?p (k + 1) 0 console"
      using k(1,2) by (intro loop_first) auto
    also from agree
    have "\<dots> = findVanitySalt_loop lib deployer initCodeHash ?p (k + 1) 0 console"
      by (intro loop_library) auto
    also from k
    have "\<dots> = findVanitySalt_loop lib deployer initCodeHash ?p maxIterations 0 console"
      by (intro loop_first [symmetric]) auto
    finally show ?thesis by (simp only: findVanitySalt_unfold)
  qed
  from k bounded written later show ?thesis by (intro exI [of _ k]) blast
qed

theorem findVanitySalt_first_match_witness:
  "fst (findVanitySalt exampleViem ''0xAB'' ''00'' ''aBa'' (Some 16) []) =
     Some \<lparr>salt = ''0xa'', address = ''0xABa00''\<rparr> \<and>
   matchesAt exampleViem ''0xAB'' ''00'' (toLowerCase ''aBa'') 10 \<and>
   \<lparr>salt = ''0xa'', address = ''0xABa00''\<rparr> =
     \<lparr>salt = saltAt exampleViem 10, address = addressAt exampleViem ''0xAB'' ''00'' 10\<rparr> \<and>
   findVanitySalt exampleViem ''0xAB'' ''00'' ''aBa'' (Some 16) [] =
     findVanitySalt exampleViem ''0xAB'' ''00'' ''aBa'' (Some 11) [] \<and>
   snd (findVanitySalt exampleViem ''0xAB'' ''00'' ''aBa'' (Some 16) []) = [] \<and>
   findVanitySalt (exampleViem\<lparr>toHex := \<lambda>j. if j \<le> 10 then toHex_viem j else ''0x''\<rparr>)
     ''0xAB'' ''00'' ''aBa'' (Some 16) [] =
   findVanitySalt exampleViem ''0xAB'' ''00'' ''aBa'' (Some 16) []"
proof -
  have found: "fst (findVanitySalt exampleViem ''0xAB'' ''00'' ''aBa'' (Some 16) []) =
     Some \<lparr>salt = ''0xa'', address = ''0xABa00''\<rparr>"
    by code_simp
  have ten: "matchesAt exampleViem ''0xAB'' ''00'' (toLowerCase ''aBa'') 10"
    by code_simp
  have "\<forall>j \<in> set [0..9]. \<not> matchesAt exampleViem ''0xAB'' ''00'' (toLowerCase ''aBa'') j"
    by code_simp
  then have before: "\<forall>j. 0 \<le> j \<and> j < 10 \<longrightarrow>
      \<not> matchesAt exampleViem ''0xAB'' ''00'' (toLowerCase ''aBa'') j"
    by simp
  have quiet: "map (\<lambda>j. ''   Checked '' @ toLocaleString exampleViem j @ '' salts...'')
      (filter (\<lambda>j. j mod 100000 = 0 \<and> j > 0) [0..10 - 1]) = []"
    by code_simp
  from findVanitySalt_first_match [OF found] obtain i where all:
    "0 \<le> i \<and> i < 16 \<and>
     matchesAt exampleViem ''0xAB'' ''00'' (toLowerCase ''aBa'') i \<and>
     (\<forall>j. 0 \<le> j \<and> j < i \<longrightarrow>
        \<not> matchesAt exampleViem ''0xAB'' ''00'' (toLowerCase ''aBa'') j) \<and>
     \<lparr>salt = ''0xa'', address = ''0xABa00''\<rparr> =
       \<lparr>salt = saltAt exampleViem i, address = addressAt exampleViem ''0xAB'' ''00'' i\<rparr> \<and>
     findVanitySalt exampleViem ''0xAB'' ''00'' ''aBa'' (Some 16) [] =
       findVanitySalt exampleViem ''0xAB'' ''00'' ''aBa'' (Some (i + 1)) [] \<and>
     snd (findVanitySalt exampleViem ''0xAB'' ''00'' ''aBa'' (Some 16) []) =
       [] @ map (\<lambda>j. ''   Checked '' @ toLocaleString exampleViem j @ '' salts...'')
              (filter (\<lambda>j. j mod 100000 = 0 \<and> j > 0) [0..i - 1]) \<and>
     (\<forall>f. (\<forall>j. 0 \<le> j \<and> j \<le> i \<longrightarrow> f j = toHex exampleViem j) \<longrightarrow>
        findVanitySalt (exampleViem\<lparr>toHex := f\<rparr>) ''0xAB'' ''00'' ''aBa'' (Some 16) [] =
        findVanitySalt exampleViem ''0xAB'' ''00'' ''aBa'' (Some 16) [])" ..
  note nonneg = all [THEN conjunct1]
  note hit = all [THEN conjunct2, THEN conjunct2, THEN conjunct1]
  note first = all [THEN conjunct2, THEN conjunct2, THEN conjunct2, THEN conjunct1]
  have le: "i \<le> 10"
  proof (rule ccontr)
    assume "\<not> i \<le> 10"
    then have "0 \<le> (10::int) \<and> 10 < i" by simp
    with first [THEN spec, of 10]
    have "\<not> matchesAt exampleViem ''0xAB'' ''00'' (toLowerCase ''aBa'') 10"
      by (rule mp)
    with ten show False by contradiction
  qed
  have ge: "10 \<le> i"
  proof (rule ccontr)
    assume "\<not> 10 \<le> i"
    with nonneg have "0 \<le> i \<and> i < 10" by simp
    with before [THEN spec, of i]
    have "\<not> matchesAt exampleViem ''0xAB'' ''00'' (toLowerCase ''aBa'') i"
      by (rule mp)
    with hit show False by contradiction
  qed
  from le ge have i: "i = 10" by simp
  note at_ten = all [unfolded i]
  note pair = at_ten [THEN conjunct2, THEN conjunct2, THEN conjunct2, THEN conjunct2,
      THEN conjunct1]
  note bounded = at_ten [THEN conjunct2, THEN conjunct2, THEN conjunct2, THEN conjunct2,
      THEN conjunct2, THEN conjunct1]
  note written = at_ten [THEN conjunct2, THEN conjunct2, THEN conjunct2, THEN conjunct2,
      THEN conjunct2, THEN conjunct2, THEN conjunct1]
  note later = at_ten [THEN conjunct2, THEN conjunct2, THEN conjunct2, THEN conjunct2,
      THEN conjunct2, THEN conjunct2, THEN conjunct2]
  have eleven: "Some ((10::int) + 1) = Some 11" by simp
  have agree: "\<forall>j. 0 \<le> j \<and> j \<le> 10 \<longrightarrow>
      (if j \<le> 10 then toHex_viem j else ''0x'') = toHex exampleViem j"
    by (simp add: exampleViem_def)
  note same = later [THEN spec, THEN mp, OF agree]
  from written have silent:
    "snd (findVanitySalt exampleViem ''0xAB'' ''00'' ''aBa'' (Some 16) []) = []"
    by (simp only: quiet append_Nil)
  from bounded have short:
    "findVanitySalt exampleViem ''0xAB'' ''00'' ''aBa'' (Some 16) [] =
     findVanitySalt exampleViem ''0xAB'' ''00'' ''aBa'' (Some 11) []"
    by (simp only: eleven)
  from found ten pair short silent same show ?thesis by (intro conjI)
qed

text \<open>
  C3 (exhaustion). If no counter from 0 up to \<open>maxIterations\<close> (excluded) gives a
  matching address, \<open>findVanitySalt\<close> returns \<open>null\<close>; and a result it returns always
  carries a matching address. The search is a total function whose outcome is \<open>null\<close>
  or a result: not finding a salt is a value, never an exception.
\<close>
theorem findVanitySalt_not_found:
  "((\<forall>i. 0 \<le> i \<and> i < maxIterations \<longrightarrow>
        \<not> matchesAt lib deployer initCodeHash (toLowerCase desiredPrefix) i) \<longrightarrow>
    fst (findVanitySalt lib deployer initCodeHash desiredPrefix (Some maxIterations) console) = None) \<and>
   (\<forall>r. fst (findVanitySalt lib deployer initCodeHash desiredPrefix (Some maxIterations) console)
           = Some r \<longrightarrow>
        startsWith (toLowerCase (address r)) (''0x'' @ toLowerCase desiredPrefix))"
proof (intro conjI impI allI)
  assume "\<forall>i. 0 \<le> i \<and> i < maxIterations \<longrightarrow>
        \<not> matchesAt lib deployer initCodeHash (toLowerCase desiredPrefix) i"
  then show "fst (findVanitySalt lib deployer initCodeHash desiredPrefix (Some maxIterations) console)
      = None"
    unfolding findVanitySalt_unfold by (rule loop_none)
next
  fix r
  assume "fst (findVanitySalt lib deployer initCodeHash desiredPrefix (Some maxIterations) console)
           = Some r"
  then obtain k where
    "matchesAt lib deployer initCodeHash (toLowerCase desiredPrefix) k"
    "r = \<lparr>salt = saltAt lib k, address = addressAt lib deployer initCodeHash k\<rparr>"
    unfolding findVanitySalt_unfold by (blast dest: loop_found)
  then show "startsWith (toLowerCase (address r)) (''0x'' @ toLowerCase desiredPrefix)"
    by (simp add: matchesAt_def)
qed

theorem findVanitySalt_not_found_witness:
  "list_all (\<lambda>i. \<not> matchesAt exampleViem ''0xAB'' ''00'' (toLowerCase ''aBa0F'') i) [0..15] \<and>
   fst (findVanitySalt exampleViem ''0xAB'' ''00'' ''aBa0F'' (Some 16) []) = None \<and>
   fst (findVanitySalt exampleViem ''0xAB'' ''00'' ''aBa'' (Some 16) []) =
     Some \<lparr>salt = ''0xa'', address = ''0xABa00''\<rparr> \<and>
   startsWith (toLowerCase (address \<lparr>salt = ''0xa'', address = ''0xABa00''\<rparr>))
     (''0x'' @ toLowerCase ''aBa'')"
proof -
  have range: "i \<in> set [0..15]" if "0 \<le> i \<and> i < 16" for i :: int
    using that by simp
  have miss: "\<forall>i \<in> set [0..15].
     \<not> matchesAt exampleViem ''0xAB'' ''00'' (toLowerCase ''aBa0F'') i"
    by code_simp
  from range miss
  have none: "\<forall>i. 0 \<le> i \<and> i < 16 \<longrightarrow>
     \<not> matchesAt exampleViem ''0xAB'' ''00'' (toLowerCase ''aBa0F'') i"
    by blast
  have found: "fst (findVanitySalt exampleViem ''0xAB'' ''00'' ''aBa'' (Some 16) []) =
     Some \<lparr>salt = ''0xa'', address = ''0xABa00''\<rparr>"
    by code_simp
  from findVanitySalt_not_found [of 16 exampleViem "''0xAB''" "''00''" "''aBa0F''" "[]"] none
  have "fst (findVanitySalt exampleViem ''0xAB'' ''00'' ''aBa0F'' (Some 16) []) = None"
    by blast
  moreover
  from findVanitySalt_not_found [of 16 exampleViem "''0xAB''" "''00''" "''aBa''" "[]"] found
  have "startsWith (toLowerCase (address \<lparr>salt = ''0xa'', address = ''0xABa00''\<rparr>))
     (''0x'' @ toLowerCase ''aBa'')"
    by blast
  moreover from miss
  have "list_all (\<lambda>i. \<not> matchesAt exampleViem ''0xAB'' ''00'' (toLowerCase ''aBa0F'') i) [0..15]"
    by (simp only: list_all_iff)
  ultimately show ?thesis using found by (intro conjI)
qed

text \<open>
  C7 (case insensitivity). Passing the prefix as written or lowercased gives the same
  outcome.
\<close>
theorem findVanitySalt_case_insensitive:
  "findVanitySalt lib deployer initCodeHash desiredPrefix maxIterations console =
   findVanitySalt lib deployer initCodeHash (toLowerCase desiredPrefix) maxIterations console"
  by (simp add: findVanitySalt_def toLowerCase_idem)

text \<open>
  C8 (default bound). Omitting \<open>maxIterations\<close> is the same as passing 100000000, and
  the counters tried are exactly those from 0 up to 100000000 (excluded): if none of them
  matches, the search returns \<open>null\<close>, whatever later counters would give; if one of them
  matches, the search returns the candidate of the smallest such counter, having written
  the progress lines of the counters before it; and a result it returns comes from a
  matching counter below 100000000.
\<close>

theorem findVanitySalt_default_bound:
  "findVanitySalt lib deployer initCodeHash desiredPrefix None console =
     findVanitySalt lib deployer initCodeHash desiredPrefix (Some 100000000) console \<and>
   ((\<forall>i. 0 \<le> i \<and> i < 100000000 \<longrightarrow>
        \<not> matchesAt lib deployer initCodeHash (toLowerCase desiredPrefix) i) \<longrightarrow>
    fst (findVanitySalt lib deployer initCodeHash desiredPrefix None console) = None) \<and>
   (\<forall>i. 0 \<le> i \<and> i < 100000000 \<and>
        matchesAt lib deployer initCodeHash (toLowerCase desiredPrefix) i \<and>
        (\<forall>j. 0 \<le> j \<and> j < i \<longrightarrow>
           \<not> matchesAt lib deployer initCodeHash (toLowerCase desiredPrefix) j) \<longrightarrow>
      findVanitySalt lib deployer initCodeHash desiredPrefix None console =
        (Some \<lparr>salt = saltAt lib i, address = addressAt lib deployer initCodeHash i\<rparr>,
         console @ map (\<lambda>j. ''   Checked '' @ toLocaleString lib j @ '' salts...'')
                     (filter (\<lambda>j. j mod 100000 = 0 \<and> j > 0) [0..i - 1]))) \<and>
   (\<forall>r. fst (findVanitySalt lib deployer initCodeHash desiredPrefix None console) = Some r \<longrightarrow>
      (\<exists>i. 0 \<le> i \<and> i < 100000000 \<and>
           matchesAt lib deployer initCodeHash (toLowerCase desiredPrefix) i \<and>
           r = \<lparr>salt = saltAt lib i, address = addressAt lib deployer initCodeHash i\<rparr>))"
proof (intro conjI impI allI)
  show "findVanitySalt lib deployer initCodeHash desiredPrefix None console =
     findVanitySalt lib deployer initCodeHash desiredPrefix (Some 100000000) console"
    by (rule findVanitySalt_default)
next
  assume "\<forall>i. 0 \<le> i \<and> i < 100000000 \<longrightarrow>
        \<not> matchesAt lib deployer initCodeHash (toLowerCase desiredPrefix) i"
  then show "fst (findVanitySalt lib deployer initCodeHash desiredPrefix None console) = None"
    unfolding findVanitySalt_default findVanitySalt_unfold by (rule loop_none)
next
  fix i
  assume first: "0 \<le> i \<and> i < 100000000 \<and>
        matchesAt lib deployer initCodeHash (toLowerCase desiredPrefix) i \<and>
        (\<forall>j. 0 \<le> j \<and> j < i \<longrightarrow>
           \<not> matchesAt lib deployer initCodeHash (toLowerCase desiredPrefix) j)"
  note nonneg = first [THEN conjunct1]
  note below = first [THEN conjunct2, THEN conjunct1]
  note hit = first [THEN conjunct2, THEN conjunct2, THEN conjunct1]
  note before = first [THEN conjunct2, THEN conjunct2, THEN conjunct2]
  show "findVanitySalt lib deployer initCodeHash desiredPrefix None console =
        (Some \<lparr>salt = saltAt lib i, address = addressAt lib deployer initCodeHash i\<rparr>,
         console @ map (\<lambda>j. ''   Checked '' @ toLocaleString lib j @ '' salts...'')
                     (filter (\<lambda>j. j mod 100000 = 0 \<and> j > 0) [0..i - 1]))"
    unfolding findVanitySalt_default findVanitySalt_unfold
    using nonneg below hit before by (rule loop_first_outcome)
next
  fix r
  assume "fst (findVanitySalt lib deployer initCodeHash desiredPrefix None console) = Some r"
  then show "\<exists>i. 0 \<le> i \<and> i < 100000000 \<and>
           matchesAt lib deployer initCodeHash (toLowerCase desiredPrefix) i \<and>
           r = \<lparr>salt = saltAt lib i, address = addressAt lib deployer initCodeHash i\<rparr>"
    unfolding findVanitySalt_default findVanitySalt_unfold by (blast dest: loop_found)
qed

theorem findVanitySalt_default_bound_witness:
  "fst (findVanitySalt (exampleViem\<lparr>getCreate2Address := \<lambda>sender s bytecodeHash. ''0xAb''\<rparr>)
          ''0xAB'' ''00'' ''aBa'' None []) = None \<and>
   findVanitySalt exampleViem ''0xAB'' ''00'' ''aBa'' None [] =
     (Some \<lparr>salt = saltAt exampleViem 10, address = addressAt exampleViem ''0xAB'' ''00'' 10\<rparr>,
      [] @ map (\<lambda>j. ''   Checked '' @ toLocaleString exampleViem j @ '' salts...'')
             (filter (\<lambda>j. j mod 100000 = 0 \<and> j > 0) [0..10 - 1])) \<and>
   fst (findVanitySalt exampleViem ''0xAB'' ''00'' ''aBa'' None []) =
     Some \<lparr>salt = ''0xa'', address = ''0xABa00''\<rparr> \<and>
   (\<exists>i. 0 \<le> i \<and> i < 100000000 \<and>
      matchesAt exampleViem ''0xAB'' ''00'' (toLowerCase ''aBa'') i \<and>
      \<lparr>salt = ''0xa'', address = ''0xABa00''\<rparr> =
        \<lparr>salt = saltAt exampleViem i, address = addressAt exampleViem ''0xAB'' ''00'' i\<rparr>)"
proof -
  let ?lib = "exampleViem\<lparr>getCreate2Address := \<lambda>sender s bytecodeHash. ''0xAb''\<rparr>"
  note default = findVanitySalt_default_bound [of exampleViem "''0xAB''" "''00''" "''aBa''" "[]"]
  have none: "\<forall>i. 0 \<le> i \<and> i < 100000000 \<longrightarrow>
      \<not> matchesAt ?lib ''0xAB'' ''00'' (toLowerCase ''aBa'') i"
    by (simp add: matchesAt_def addressAt_def startsWith_def toLowerCase_def)
  with findVanitySalt_default_bound [of ?lib "''0xAB''" "''00''" "''aBa''" "[]",
      THEN conjunct2, THEN conjunct1]
  have absent: "fst (findVanitySalt ?lib ''0xAB'' ''00'' ''aBa'' None []) = None"
    by (rule mp)
  have ten: "matchesAt exampleViem ''0xAB'' ''00'' (toLowerCase ''aBa'') 10"
    by code_simp
  have "\<forall>j \<in> set [0..9]. \<not> matchesAt exampleViem ''0xAB'' ''00'' (toLowerCase ''aBa'') j"
    by code_simp
  then have before: "\<forall>j. 0 \<le> j \<and> j < 10 \<longrightarrow>
      \<not> matchesAt exampleViem ''0xAB'' ''00'' (toLowerCase ''aBa'') j"
    by simp
  have range: "(0::int) \<le> 10" "(10::int) < 100000000" by simp_all
  from range ten before
  have "0 \<le> (10::int) \<and> (10::int) < 100000000 \<and>
        matchesAt exampleViem ''0xAB'' ''00'' (toLowerCase ''aBa'') 10 \<and>
        (\<forall>j. 0 \<le> j \<and> j < 10 \<longrightarrow>
           \<not> matchesAt exampleViem ''0xAB'' ''00'' (toLowerCase ''aBa'') j)"
    by (intro conjI)
  with default [THEN conjunct2, THEN conjunct2, THEN conjunct1, THEN spec, of 10]
  have outcome: "findVanitySalt exampleViem ''0xAB'' ''00'' ''aBa'' None [] =
     (Some \<lparr>salt = saltAt exampleViem 10, address = addressAt exampleViem ''0xAB'' ''00'' 10\<rparr>,
      [] @ map (\<lambda>j. ''   Checked '' @ toLocaleString exampleViem j @ '' salts...'')
             (filter (\<lambda>j. j mod 100000 = 0 \<and> j > 0) [0..10 - 1]))"
    by (rule mp)
  have candidate: "\<lparr>salt = saltAt exampleViem 10,
        address = addressAt exampleViem ''0xAB'' ''00'' 10\<rparr> =
      \<lparr>salt = ''0xa'', address = ''0xABa00''\<rparr>"
    by code_simp
  have found: "fst (findVanitySalt exampleViem ''0xAB'' ''00'' ''aBa'' None []) =
     Some \<lparr>salt = ''0xa'', address = ''0xABa00''\<rparr>"
    by (simp only: outcome fst_conv candidate)
  with default [THEN conjunct2, THEN conjunct2, THEN conjunct2, THEN spec,
      of "\<lparr>salt = ''0xa'', address = ''0xABa00''\<rparr>"]
  have "\<exists>i. 0 \<le> i \<and> i < 100000000 \<and>
      matchesAt exampleViem ''0xAB'' ''00'' (toLowerCase ''aBa'') i \<and>
      \<lparr>salt = ''0xa'', address = ''0xABa00''\<rparr> =
        \<lparr>salt = saltAt exampleViem i, address = addressAt exampleViem ''0xAB'' ''00'' i\<rparr>"
    by (rule mp)
  with absent outcome found show ?thesis by (intro conjI)
qed

text \<open>
  C9 (progress report). The search with the reporting branch removed returns the same
  result as \<open>findVanitySalt\<close>.
\<close>
theorem findVanitySalt_report_irrelevant:
  "fst (findVanitySalt lib deployer initCodeHash desiredPrefix maxIterations console) =
   findVanitySalt_noReport lib deployer initCodeHash desiredPrefix maxIterations"
  by (simp add: findVanitySalt_def findVanitySalt_noReport_def noReport_loop [of _ _ _ _ _ _ console])

text \<open>
  C10 (consistent pair). In a result of \<open>findVanitySalt\<close>, the address is the address
  derived from the deployer, the salt of the same result and the init-code hash, and the
  salt is the salt of a counter from 0 up to \<open>maxIterations\<close> (excluded).
\<close>
theorem findVanitySalt_pair_consistent:
  assumes "fst (findVanitySalt lib deployer initCodeHash desiredPrefix (Some maxIterations) console)
             = Some r"
  shows "address r = getCreate2Address lib deployer (salt r) initCodeHash \<and>
         (\<exists>i. 0 \<le> i \<and> i < maxIterations \<and> salt r = keccak256 lib (toHex lib i))"
proof -
  from assms obtain k where "0 \<le> k" "k < maxIterations"
    "r = \<lparr>salt = saltAt lib k, address = addressAt lib deployer initCodeHash k\<rparr>"
    unfolding findVanitySalt_unfold by (blast dest: loop_found)
  then show ?thesis
    by (auto simp: addressAt_def saltAt_def)
qed

theorem findVanitySalt_pair_consistent_witness:
  "fst (findVanitySalt exampleViem ''0xAB'' ''00'' ''aBa'' (Some 16) []) =
     Some \<lparr>salt = ''0xa'', address = ''0xABa00''\<rparr> \<and>
   address \<lparr>salt = ''0xa'', address = ''0xABa00''\<rparr> =
     getCreate2Address exampleViem ''0xAB'' (salt \<lparr>salt = ''0xa'', address = ''0xABa00''\<rparr>) ''00'' \<and>
   (\<exists>i. 0 \<le> i \<and> i < 16 \<and>
      salt \<lparr>salt = ''0xa'', address = ''0xABa00''\<rparr> = keccak256 exampleViem (toHex exampleViem i))"
proof -
  have found: "fst (findVanitySalt exampleViem ''0xAB'' ''00'' ''aBa'' (Some 16) []) =
     Some \<lparr>salt = ''0xa'', address = ''0xABa00''\<rparr>"
    by code_simp
  from findVanitySalt_pair_consistent [OF found] found show ?thesis by blast
qed

section \<open>Claims about the derivation and the salts\<close>

text \<open>
  C4 (formula conformance). The 20 bytes of the address computed by
  \<open>Create2Factory.computeAddress\<close> are the last 20 of the 32 bytes of the hash of
  \<open>0xff\<close>, the 20 bytes of the factory address, the 32 bytes of the salt and the 32
  bytes of the init-code hash, in this order.
\<close>
theorem computeAddress_last_20_bytes:
  "wordBytes 20 (computeAddress keccak factory s initCodeHash) =
     drop 12 (wordBytes 32
       (keccak ([0xff] @ wordBytes 20 factory @ wordBytes 32 s @ wordBytes 32 initCodeHash)))"
  by (simp add: computeAddress_def encodePacked_def wordBytes_truncated)

text \<open>
  C5 (salt of a counter). For every natural number \<open>n\<close>, the salt of counter \<open>n\<close>,
  \<open>keccak256(toHex(n))\<close>, is the hash of the big-endian bytes of \<open>n\<close> without leading
  zero bytes; being a function of \<open>n\<close>, it is the same value each time.
\<close>
theorem salt_of_counter:
  "keccak256_viem hash (toHex_viem (int n)) = Some (hash (bigEndianBytes n))"
  using hexPairs_hexDigits [of n]
  by (simp add: keccak256_viem_def hexToBytes_def toHex_viem_def padEven_def Let_def)

end
